theory Spec2Isabelle
  imports Main "HOL-Library.AList"
begin

section \<open>Values, errors and dictionaries\<close>

text \<open>
  The gateway payloads handled by \<^verbatim>\<open>discord/guild.py\<close> are decoded JSON documents.
  A decoded value is \<open>None\<close>, a boolean, an integer, a string, a list or a dictionary
  with string keys. JSON numbers with a fraction are left out of the model.
\<close>

datatype json =
    JNone
  | JBool bool
  | JInt int
  | JStr string
  | JList "json list"
  | JDict "(string \<times> json) list"

type_synonym payload = "(string \<times> json) list"

text \<open>The Python exceptions that the modelled code can raise.\<close>

datatype error = KeyError | ValueError | TypeError | AttributeError | OverflowError

text \<open>
  A Python \<open>dict\<close> is an association list with pairwise different keys, in insertion
  order: \<open>d[k] = v\<close> is \<open>AList.update k v d\<close> (replace in place or append),
  \<open>d.get(k)\<close> is \<open>map_of d k\<close>, removing a key is \<open>AList.delete k d\<close>,
  \<open>d.values()\<close> is \<open>map snd d\<close> and \<open>len(d)\<close> is \<open>length d\<close>.
\<close>

definition dict_get :: "payload \<Rightarrow> string \<Rightarrow> json" where
  \<comment> \<open>\<open>d.get(k)\<close>: the value, \<open>None\<close> for a missing key\<close>
  "dict_get d k = (case map_of d k of None \<Rightarrow> JNone | Some v \<Rightarrow> v)"

definition dict_get_default :: "payload \<Rightarrow> string \<Rightarrow> json \<Rightarrow> json" where
  \<comment> \<open>\<open>d.get(k, dflt)\<close>\<close>
  "dict_get_default d k dflt = (case map_of d k of None \<Rightarrow> dflt | Some v \<Rightarrow> v)"

definition dict_item :: "payload \<Rightarrow> string \<Rightarrow> error + json" where
  \<comment> \<open>\<open>d[k]\<close>: raises KeyError for a missing key\<close>
  "dict_item d k = (case map_of d k of None \<Rightarrow> Inl KeyError | Some v \<Rightarrow> Inr v)"

definition dict_pop :: "(int \<times> 'v) list \<Rightarrow> int \<Rightarrow> error + ('v \<times> (int \<times> 'v) list)" where
  \<comment> \<open>\<open>d.pop(k)\<close>: the removed value and the remaining dictionary, KeyError for a
      missing key\<close>
  "dict_pop d k =
     (case map_of d k of None \<Rightarrow> Inl KeyError | Some v \<Rightarrow> Inr (v, AList.delete k d))"

definition truthy :: "json \<Rightarrow> bool" where
  \<comment> \<open>Python's truth value of a decoded JSON value\<close>
  "truthy j =
     (case j of JNone \<Rightarrow> False | JBool b \<Rightarrow> b | JInt n \<Rightarrow> n \<noteq> 0 | JStr s \<Rightarrow> s \<noteq> []
      | JList xs \<Rightarrow> xs \<noteq> [] | JDict kvs \<Rightarrow> kvs \<noteq> [])"

section \<open>The entities held by a guild\<close>

text \<open>
  Modelled from the spec: the classes \<open>Role\<close>, \<open>Member\<close>, \<open>VoiceState\<close> and the
  channel classes live in \<^verbatim>\<open>role.py\<close>, \<^verbatim>\<open>member.py\<close> and \<^verbatim>\<open>channel.py\<close>, which are
  not among the sources. A role has an id, an integer \<open>position\<close> and is or is not
  the built-in default role (what \<open>Role.is_default()\<close> answers); a member is keyed
  by its id and carries a status and an activity; a channel is keyed by its id; a
  voice state records the channel occupied and the flags read from the payload.
  Whatever else the constructors keep of their payload is the \<open>_data\<close> field.
\<close>

record Role =
  role_id :: int
  position :: int
  is_default :: bool
  role_data :: json

record Member =
  member_id :: int
  status :: json
  activity :: json
  member_data :: json

datatype channel_kind = TextChannel | VoiceChannel | CategoryChannel

record Channel =
  channel_id :: int
  kind :: channel_kind
  channel_data :: json

record VoiceState =
  channel :: "Channel option"
  flags :: json

text \<open>
  The attributes of \<open>Guild\<close> (its \<open>__slots__\<close>). A leading underscore of the source
  is written \<open>u_\<close>, and \<open>id\<close> is \<open>guild_id\<close>. The slot \<open>_member_count\<close> is the only
  one that a constructed guild may lack (reading it then raises AttributeError), so it
  is an option; \<open>_state\<close>, the connection state, and the cache slot \<open>_default_role\<close>
  are not part of the model.
\<close>

record Guild =
  afk_timeout :: json
  afk_channel :: "Channel option"
  u_members :: "(int \<times> Member) list"
  u_channels :: "(int \<times> Channel) list"
  icon :: json
  name :: json
  guild_id :: int
  unavailable :: json
  region :: json
  u_roles :: "(int \<times> Role) list"
  u_member_count :: "json option"
  u_large :: json
  owner_id :: json
  mfa_level :: json
  emojis :: "json list"
  features :: json
  verification_level :: json
  explicit_content_filter :: json
  splash :: json
  u_voice_states :: "(int \<times> VoiceState) list"
  u_system_channel_id :: json

section \<open>Members and roles\<close>

definition add_member :: "Guild \<Rightarrow> Member \<Rightarrow> Guild" where
  \<comment> \<open>\<open>_add_member\<close>: \<open>self._members[member.id] = member\<close>\<close>
  "add_member g m = g\<lparr>u_members := AList.update (member_id m) m (u_members g)\<rparr>"

definition remove_member :: "Guild \<Rightarrow> Member \<Rightarrow> Guild" where
  \<comment> \<open>\<open>_remove_member\<close>: \<open>self._members.pop(member.id, None)\<close>\<close>
  "remove_member g m = g\<lparr>u_members := AList.delete (member_id m) (u_members g)\<rparr>"

definition get_member :: "Guild \<Rightarrow> int \<Rightarrow> Member option" where
  "get_member g user_id = map_of (u_members g) user_id"

definition bump_role :: "Role \<Rightarrow> Role" where
  \<comment> \<open>\<open>r.position += (not r.is_default())\<close>\<close>
  "bump_role r = r\<lparr>position := position r + (if is_default r then 0 else 1)\<rparr>"

definition add_role :: "Guild \<Rightarrow> Role \<Rightarrow> Guild" where
  \<comment> \<open>\<open>_add_role\<close>: every stored role that is not the default one moves up by one,
      then the role, an object of its own that the loop has not touched, is stored
      under its id\<close>
  "add_role g role =
     g\<lparr>u_roles := AList.update (role_id role) role
                    (map (\<lambda>(k, r). (k, bump_role r)) (u_roles g))\<rparr>"

definition lower_role :: "Role \<Rightarrow> Role \<Rightarrow> Role" where
  \<comment> \<open>\<open>r.position -= r.position > role.position\<close>\<close>
  "lower_role role r =
     r\<lparr>position := position r - (if position r > position role then 1 else 0)\<rparr>"

definition remove_role :: "Guild \<Rightarrow> int \<Rightarrow> (error + Role) \<times> Guild" where
  \<comment> \<open>\<open>_remove_role\<close>: \<open>self._roles.pop(role_id)\<close> raises KeyError for an unknown id,
      before anything is changed; otherwise the roles above the removed one move
      down by one and the removed role is returned\<close>
  "remove_role g rid =
     (case dict_pop (u_roles g) rid of
        Inl e \<Rightarrow> (Inl e, g)
      | Inr (role, rest) \<Rightarrow>
          (Inr role, g\<lparr>u_roles := map (\<lambda>(k, r). (k, lower_role role r)) rest\<rparr>))"


text \<open>
  A run of role events, as the gateway delivers them one after the other:
  role-create calls \<open>_add_role\<close>, role-delete calls \<open>_remove_role\<close>.
\<close>

datatype role_event = RoleCreate Role | RoleDelete int

fun apply_role_event :: "Guild \<Rightarrow> role_event \<Rightarrow> Guild" where
  "apply_role_event g (RoleCreate role) = add_role g role"
| "apply_role_event g (RoleDelete rid) = snd (remove_role g rid)"

fun apply_role_events :: "Guild \<Rightarrow> role_event list \<Rightarrow> Guild" where
  "apply_role_events g [] = g"
| "apply_role_events g (e # es) = apply_role_events (apply_role_event g e) es"

text \<open>
  The events of the claim: a created role is new (its id is not stored), is
  not the default role and carries position 1; a deleted role is stored.
\<close>

fun role_event_claimed :: "Guild \<Rightarrow> role_event \<Rightarrow> bool" where
  "role_event_claimed g (RoleCreate role) \<longleftrightarrow>
     role_id role \<notin> set (map fst (u_roles g)) \<and> position role = 1 \<and> \<not> is_default role"
| "role_event_claimed g (RoleDelete rid) \<longleftrightarrow> map_of (u_roles g) rid \<noteq> None"

fun role_events_claimed :: "Guild \<Rightarrow> role_event list \<Rightarrow> bool" where
  "role_events_claimed g [] \<longleftrightarrow> True"
| "role_events_claimed g (e # es) \<longleftrightarrow>
     role_event_claimed g e \<and> role_events_claimed (apply_role_event g e) es"

text \<open>The same, with the deleted role other than the default role.\<close>

fun role_event_ok :: "Guild \<Rightarrow> role_event \<Rightarrow> bool" where
  "role_event_ok g (RoleCreate role) \<longleftrightarrow>
     role_id role \<notin> set (map fst (u_roles g)) \<and> position role = 1 \<and> \<not> is_default role"
| "role_event_ok g (RoleDelete rid) \<longleftrightarrow>
     (case map_of (u_roles g) rid of None \<Rightarrow> False | Some role \<Rightarrow> \<not> is_default role)"

fun role_events_ok :: "Guild \<Rightarrow> role_event list \<Rightarrow> bool" where
  "role_events_ok g [] \<longleftrightarrow> True"
| "role_events_ok g (e # es) \<longleftrightarrow>
     role_event_ok g e \<and> role_events_ok (apply_role_event g e) es"

text \<open>
  The invariant of the role dictionary: it is a dictionary (no key twice), the
  positions are pairwise different and are exactly the integers \<open>0, \<dots>, N - 1\<close> for
  \<open>N\<close> stored roles, a default role is stored and every default role is at position 0.
\<close>

definition role_positions :: "Guild \<Rightarrow> int list" where
  "role_positions g = map (\<lambda>(k, r). position r) (u_roles g)"

definition roles_inv :: "Guild \<Rightarrow> bool" where
  "roles_inv g \<longleftrightarrow>
     distinct (map fst (u_roles g)) \<and>
     distinct (role_positions g) \<and>
     set (role_positions g) = {0..<int (length (u_roles g))} \<and>
     list_ex (\<lambda>(k, r). is_default r) (u_roles g) \<and>
     list_all (\<lambda>(k, r). is_default r \<longrightarrow> position r = 0) (u_roles g)"

section \<open>Python operations on decoded values\<close>

definition json_item :: "json \<Rightarrow> string \<Rightarrow> error + json" where
  \<comment> \<open>\<open>x[k]\<close> with a string key: only a dictionary can be subscripted that way\<close>
  "json_item x k = (case x of JDict d \<Rightarrow> dict_item d k | _ \<Rightarrow> Inl TypeError)"

definition py_iter :: "json \<Rightarrow> error + json list" where
  \<comment> \<open>\<open>for x in v\<close>: the elements of a list, the keys of a dictionary, the characters
      of a string; anything else is not iterable\<close>
  "py_iter v =
     (case v of JList xs \<Rightarrow> Inr xs | JDict kvs \<Rightarrow> Inr (map (\<lambda>kv. JStr (fst kv)) kvs)
      | JStr s \<Rightarrow> Inr (map (\<lambda>c. JStr [c]) s) | _ \<Rightarrow> Inl TypeError)"

definition json_ge :: "json \<Rightarrow> int \<Rightarrow> error + bool" where
  \<comment> \<open>\<open>v >= n\<close> for an integer \<open>n\<close>\<close>
  "json_ge v n =
     (case v of JInt m \<Rightarrow> Inr (m \<ge> n) | JBool b \<Rightarrow> Inr ((if b then 1 else 0) \<ge> n)
      | _ \<Rightarrow> Inl TypeError)"

definition json_eq_int :: "json \<Rightarrow> int \<Rightarrow> bool" where
  \<comment> \<open>\<open>v == n\<close> for an integer \<open>n\<close>\<close>
  "json_eq_int v n =
     (case v of JInt m \<Rightarrow> m = n | JBool b \<Rightarrow> (if b then 1 else 0) = n | _ \<Rightarrow> False)"

section \<open>What the guild module takes from the rest of the library\<close>

text \<open>
  \<^verbatim>\<open>guild.py\<close> calls into modules that are not among the sources; they are
  parameters of the model:
  \<^item> \<open>int_of_str\<close>: Python's \<open>int()\<close> on a string (\<open>None\<close> for ValueError);
  \<^item> \<open>try_enum\<close> of \<^verbatim>\<open>enums.py\<close> and the values of \<open>ChannelType\<close>;
  \<^item> the constructors \<open>Role(guild=, data=, state=)\<close>, \<open>Member(data=, guild=, state=)\<close>,
    \<open>TextChannel\<close>, \<open>VoiceChannel\<close>, \<open>CategoryChannel\<close>, which may raise;
  \<^item> \<open>state.store_emoji\<close> and \<open>create_activity\<close>;
  \<^item> how a voice state reads its flags from a payload, at construction and in
    \<open>VoiceState._update\<close>.
\<close>

datatype enum_class = VoiceRegion | VerificationLevel | ContentFilter | Status

record deps =
  int_of_str :: "string \<Rightarrow> int option"
  try_enum :: "enum_class \<Rightarrow> json \<Rightarrow> json"
  ChannelType_value :: "channel_kind \<Rightarrow> int"
  new_Role :: "Guild \<Rightarrow> json \<Rightarrow> error + Role"
  new_Member :: "Guild \<Rightarrow> json \<Rightarrow> error + Member"
  new_Channel :: "channel_kind \<Rightarrow> Guild \<Rightarrow> json \<Rightarrow> error + Channel"
  store_emoji :: "Guild \<Rightarrow> json \<Rightarrow> error + json"
  create_activity :: "json \<Rightarrow> error + json"
  flags_of_payload :: "payload \<Rightarrow> json"
  flags_after_update :: "json \<Rightarrow> payload \<Rightarrow> json"

definition py_int :: "deps \<Rightarrow> json \<Rightarrow> error + int" where
  \<comment> \<open>Python's \<open>int(v)\<close>\<close>
  "py_int d v =
     (case v of JInt n \<Rightarrow> Inr n | JBool b \<Rightarrow> Inr (if b then 1 else 0)
      | JStr s \<Rightarrow> (case int_of_str d s of None \<Rightarrow> Inl ValueError | Some n \<Rightarrow> Inr n)
      | _ \<Rightarrow> Inl TypeError)"

definition get_as_snowflake :: "deps \<Rightarrow> payload \<Rightarrow> string \<Rightarrow> error + json" where
  \<comment> \<open>\<open>utils._get_as_snowflake\<close>: \<open>None\<close> for a missing key, else \<open>value and int(value)\<close>\<close>
  "get_as_snowflake d data key =
     (case map_of data key of
        None \<Rightarrow> Inr JNone
      | Some v \<Rightarrow>
          if truthy v then (case py_int d v of Inl e \<Rightarrow> Inl e | Inr n \<Rightarrow> Inr (JInt n))
          else Inr v)"

text \<open>
  Modelled from the spec: \<open>VoiceState(data=, channel=)\<close> and \<open>VoiceState._update\<close> of
  \<^verbatim>\<open>member.py\<close>, which is not among the sources. A voice state keeps the channel it
  is given and the flags of the payload; neither raises.
\<close>

definition new_VoiceState :: "deps \<Rightarrow> payload \<Rightarrow> Channel option \<Rightarrow> VoiceState" where
  "new_VoiceState d data ch = \<lparr>channel = ch, flags = flags_of_payload d data\<rparr>"

definition VoiceState_update :: "deps \<Rightarrow> VoiceState \<Rightarrow> payload \<Rightarrow> Channel option \<Rightarrow> VoiceState" where
  "VoiceState_update d vs data ch =
     vs\<lparr>flags := flags_after_update d (flags vs) data, channel := ch\<rparr>"

section \<open>Channels and voice states\<close>

definition add_channel :: "Guild \<Rightarrow> Channel \<Rightarrow> Guild" where
  \<comment> \<open>\<open>_add_channel\<close>\<close>
  "add_channel g ch = g\<lparr>u_channels := AList.update (channel_id ch) ch (u_channels g)\<rparr>"

definition get_channel :: "Guild \<Rightarrow> json \<Rightarrow> error + Channel option" where
  \<comment> \<open>\<open>get_channel\<close>: \<open>self._channels.get(channel_id)\<close>. The keys are integers; a list
      or a dictionary is not hashable, \<open>None\<close> and strings equal no key\<close>
  "get_channel g cid =
     (case cid of
        JInt n \<Rightarrow> Inr (map_of (u_channels g) n)
      | JBool b \<Rightarrow> Inr (map_of (u_channels g) (if b then 1 else 0))
      | JNone \<Rightarrow> Inr None
      | JStr s \<Rightarrow> Inr None
      | _ \<Rightarrow> Inl TypeError)"

definition voice_state_for :: "Guild \<Rightarrow> int \<Rightarrow> VoiceState option" where
  \<comment> \<open>\<open>_voice_state_for\<close>\<close>
  "voice_state_for g user_id = map_of (u_voice_states g) user_id"

definition update_voice_state ::
  "deps \<Rightarrow> Guild \<Rightarrow> payload \<Rightarrow> json
     \<Rightarrow> (error + (Member option \<times> VoiceState \<times> VoiceState)) \<times> Guild" where
  \<comment> \<open>\<open>_update_voice_state\<close>. In the \<open>try\<close> block only the dictionary access can raise
      KeyError: with a stored state, it leaves the cache when the channel is \<open>None\<close>,
      \<open>before\<close> is its copy and \<open>after\<close> the updated object (still the cached one when
      it stays). Without a stored state the \<open>except\<close> branch builds both states and
      stores \<open>after\<close>.\<close>
  "update_voice_state d g data cid =
     (case dict_item data ''user_id'' of
        Inl e \<Rightarrow> (Inl e, g)
      | Inr uid \<Rightarrow>
     (case py_int d uid of
        Inl e \<Rightarrow> (Inl e, g)
      | Inr user_id \<Rightarrow>
     (case get_channel g cid of
        Inl e \<Rightarrow> (Inl e, g)
      | Inr ch \<Rightarrow>
     (case map_of (u_voice_states g) user_id of
        Some stored \<Rightarrow>
          (let before = stored;
               after = VoiceState_update d stored data ch;
               g' = (if ch = None
                     then g\<lparr>u_voice_states := AList.delete user_id (u_voice_states g)\<rparr>
                     else g\<lparr>u_voice_states := AList.update user_id after (u_voice_states g)\<rparr>)
           in (Inr (get_member g' user_id, before, after), g'))
      | None \<Rightarrow>
          (let after = new_VoiceState d data ch;
               before = new_VoiceState d data None;
               g' = g\<lparr>u_voice_states := AList.update user_id after (u_voice_states g)\<rparr>
           in (Inr (get_member g' user_id, before, after), g'))))))"

section \<open>Rebuilding a guild from a payload\<close>

text \<open>
  A statement of a method body takes the guild to the guild after it, or raises and
  leaves the guild as it is at that moment. A body is the list of its statements, run
  until one raises; a \<open>for\<close> loop runs its body once for every element.
\<close>

type_synonym step = "Guild \<Rightarrow> (error + unit) \<times> Guild"

fun run_steps :: "step list \<Rightarrow> step" where
  "run_steps [] g = (Inr (), g)"
| "run_steps (s # ss) g =
     (case s g of (Inl e, g') \<Rightarrow> (Inl e, g') | (Inr u, g') \<Rightarrow> run_steps ss g')"

definition assign :: "(Guild \<Rightarrow> Guild) \<Rightarrow> step" where
  "assign f g = (Inr (), f g)"

definition for_each :: "json \<Rightarrow> (json \<Rightarrow> step) \<Rightarrow> step" where
  "for_each v body g =
     (case py_iter v of Inl e \<Rightarrow> (Inl e, g) | Inr xs \<Rightarrow> run_steps (map body xs) g)"

fun collect :: "('a \<Rightarrow> error + 'b) \<Rightarrow> 'a list \<Rightarrow> error + 'b list" where
  "collect f [] = Inr []"
| "collect f (x # xs) =
     (case f x of
        Inl e \<Rightarrow> Inl e
      | Inr y \<Rightarrow> (case collect f xs of Inl e \<Rightarrow> Inl e | Inr ys \<Rightarrow> Inr (y # ys)))"

definition json_get :: "json \<Rightarrow> string \<Rightarrow> error + json" where
  \<comment> \<open>\<open>x.get(k)\<close>: only a dictionary has the method\<close>
  "json_get x k = (case x of JDict d \<Rightarrow> Inr (dict_get d k) | _ \<Rightarrow> Inl AttributeError)"

definition sync_presence :: "deps \<Rightarrow> json \<Rightarrow> step" where
  \<comment> \<open>the body of the loop over \<open>presences\<close> in \<open>_sync\<close>\<close>
  "sync_presence d presence g =
     (case json_item presence ''user'' of
        Inl e \<Rightarrow> (Inl e, g)
      | Inr user \<Rightarrow>
     (case json_item user ''id'' of
        Inl e \<Rightarrow> (Inl e, g)
      | Inr uid \<Rightarrow>
     (case py_int d uid of
        Inl e \<Rightarrow> (Inl e, g)
      | Inr user_id \<Rightarrow>
     (case get_member g user_id of
        None \<Rightarrow> (Inr (), g)
      | Some member \<Rightarrow>
     (case json_item presence ''status'' of
        Inl e \<Rightarrow> (Inl e, g)
      | Inr st \<Rightarrow>
          (let m1 = member\<lparr>status := try_enum d Status st\<rparr>;
               g1 = g\<lparr>u_members := AList.update user_id m1 (u_members g)\<rparr>
           in (case json_get presence ''game'' of
                 Inl e \<Rightarrow> (Inl e, g1)
               | Inr game \<Rightarrow>
              (case create_activity d game of
                 Inl e \<Rightarrow> (Inl e, g1)
               | Inr act \<Rightarrow>
                   (Inr (), g1\<lparr>u_members :=
                              AList.update user_id (m1\<lparr>activity := act\<rparr>) (u_members g1)\<rparr>)))))))))"

definition sync_add_channel :: "deps \<Rightarrow> channel_kind \<Rightarrow> json \<Rightarrow> step" where
  \<comment> \<open>\<open>self._add_channel(TextChannel(guild=self, data=c, state=self._state))\<close> and
      its two siblings\<close>
  "sync_add_channel d k c g =
     (case new_Channel d k g c of Inl e \<Rightarrow> (Inl e, g) | Inr ch \<Rightarrow> (Inr (), add_channel g ch))"

definition sync_channel :: "deps \<Rightarrow> json \<Rightarrow> step" where
  \<comment> \<open>the body of the loop over \<open>channels\<close> in \<open>_sync\<close>\<close>
  "sync_channel d c g =
     (case json_item c ''type'' of
        Inl e \<Rightarrow> (Inl e, g)
      | Inr t \<Rightarrow>
          if json_eq_int t (ChannelType_value d TextChannel)
            then sync_add_channel d TextChannel c g
          else if json_eq_int t (ChannelType_value d VoiceChannel)
            then sync_add_channel d VoiceChannel c g
          else if json_eq_int t (ChannelType_value d CategoryChannel)
            then sync_add_channel d CategoryChannel c g
          else (Inr (), g))"

definition sync :: "deps \<Rightarrow> payload \<Rightarrow> step" where
  \<comment> \<open>\<open>_sync\<close>\<close>
  "sync d data =
     run_steps
      [assign (\<lambda>g. case map_of data ''large'' of None \<Rightarrow> g | Some v \<Rightarrow> g\<lparr>u_large := v\<rparr>),
       for_each (dict_get_default data ''presences'' (JList [])) (sync_presence d),
       (\<lambda>g. case map_of data ''channels'' of
               None \<Rightarrow> (Inr (), g)
             | Some channels \<Rightarrow> for_each channels (sync_channel d) g)]"

definition set_guild_id :: "deps \<Rightarrow> payload \<Rightarrow> step" where
  \<comment> \<open>\<open>self.id = int(guild['id'])\<close>\<close>
  "set_guild_id d guild g =
     (case dict_item guild ''id'' of
        Inl e \<Rightarrow> (Inl e, g)
      | Inr v \<Rightarrow> (case py_int d v of Inl e \<Rightarrow> (Inl e, g) | Inr n \<Rightarrow> (Inr (), g\<lparr>guild_id := n\<rparr>)))"

definition store_role :: "deps \<Rightarrow> json \<Rightarrow> step" where
  \<comment> \<open>\<open>role = Role(guild=self, data=r, state=state); self._roles[role.id] = role\<close>\<close>
  "store_role d r g =
     (case new_Role d g r of
        Inl e \<Rightarrow> (Inl e, g)
      | Inr role \<Rightarrow> (Inr (), g\<lparr>u_roles := AList.update (role_id role) role (u_roles g)\<rparr>))"

definition set_emojis :: "deps \<Rightarrow> payload \<Rightarrow> step" where
  \<comment> \<open>\<open>self.emojis = tuple(map(lambda d: state.store_emoji(self, d), guild.get('emojis', [])))\<close>\<close>
  "set_emojis d guild g =
     (case py_iter (dict_get_default guild ''emojis'' (JList [])) of
        Inl e \<Rightarrow> (Inl e, g)
      | Inr xs \<Rightarrow>
          (case collect (store_emoji d g) xs of
             Inl e \<Rightarrow> (Inl e, g)
           | Inr es \<Rightarrow> (Inr (), g\<lparr>emojis := es\<rparr>)))"

definition set_system_channel_id :: "deps \<Rightarrow> payload \<Rightarrow> step" where
  "set_system_channel_id d guild g =
     (case get_as_snowflake d guild ''system_channel_id'' of
        Inl e \<Rightarrow> (Inl e, g)
      | Inr v \<Rightarrow> (Inr (), g\<lparr>u_system_channel_id := v\<rparr>))"

definition store_member :: "deps \<Rightarrow> json \<Rightarrow> step" where
  \<comment> \<open>\<open>member = Member(data=mdata, guild=self, state=state); self._add_member(member)\<close>\<close>
  "store_member d mdata g =
     (case new_Member d g mdata of Inl e \<Rightarrow> (Inl e, g) | Inr m \<Rightarrow> (Inr (), add_member g m))"

definition set_large :: "json \<Rightarrow> step" where
  \<comment> \<open>\<open>self._large = None if member_count is None else self._member_count >= 250\<close>\<close>
  "set_large member_count g =
     (if member_count = JNone then (Inr (), g\<lparr>u_large := JNone\<rparr>)
      else (case u_member_count g of
              None \<Rightarrow> (Inl AttributeError, g)
            | Some mc \<Rightarrow>
                (case json_ge mc 250 of
                   Inl e \<Rightarrow> (Inl e, g)
                 | Inr b \<Rightarrow> (Inr (), g\<lparr>u_large := JBool b\<rparr>))))"

definition set_owner_id :: "deps \<Rightarrow> payload \<Rightarrow> step" where
  "set_owner_id d guild g =
     (case get_as_snowflake d guild ''owner_id'' of
        Inl e \<Rightarrow> (Inl e, g)
      | Inr v \<Rightarrow> (Inr (), g\<lparr>owner_id := v\<rparr>))"

definition set_afk_channel :: "deps \<Rightarrow> payload \<Rightarrow> step" where
  \<comment> \<open>\<open>self.afk_channel = self.get_channel(utils._get_as_snowflake(guild, 'afk_channel_id'))\<close>\<close>
  "set_afk_channel d guild g =
     (case get_as_snowflake d guild ''afk_channel_id'' of
        Inl e \<Rightarrow> (Inl e, g)
      | Inr v \<Rightarrow>
          (case get_channel g v of
             Inl e \<Rightarrow> (Inl e, g)
           | Inr ch \<Rightarrow> (Inr (), g\<lparr>afk_channel := ch\<rparr>)))"

definition load_voice_state :: "deps \<Rightarrow> json \<Rightarrow> step" where
  \<comment> \<open>\<open>self._update_voice_state(obj, int(obj['channel_id']))\<close>; the returned triple is
      dropped\<close>
  "load_voice_state d obj g =
     (case json_item obj ''channel_id'' of
        Inl e \<Rightarrow> (Inl e, g)
      | Inr cid \<Rightarrow>
     (case py_int d cid of
        Inl e \<Rightarrow> (Inl e, g)
      | Inr n \<Rightarrow>
     (case obj of
        JDict data \<Rightarrow>
          (case update_voice_state d g data (JInt n) of
             (Inl e, g') \<Rightarrow> (Inl e, g')
           | (Inr r, g') \<Rightarrow> (Inr (), g'))
      | _ \<Rightarrow> (Inl TypeError, g))))"

definition from_data_steps :: "deps \<Rightarrow> payload \<Rightarrow> step list" where
  \<comment> \<open>the body of \<open>_from_data\<close>, statement by statement\<close>
  "from_data_steps d guild =
     (let member_count = dict_get guild ''member_count'' in
       [assign (\<lambda>g. if truthy member_count then g\<lparr>u_member_count := Some member_count\<rparr> else g),
        assign (\<lambda>g. g\<lparr>name := dict_get guild ''name''\<rparr>),
        assign (\<lambda>g. g\<lparr>region := try_enum d VoiceRegion (dict_get guild ''region'')\<rparr>),
        assign (\<lambda>g. g\<lparr>verification_level :=
                        try_enum d VerificationLevel (dict_get guild ''verification_level'')\<rparr>),
        assign (\<lambda>g. g\<lparr>explicit_content_filter :=
                        try_enum d ContentFilter
                          (dict_get_default guild ''explicit_content_filter'' (JInt 0))\<rparr>),
        assign (\<lambda>g. g\<lparr>afk_timeout := dict_get guild ''afk_timeout''\<rparr>),
        assign (\<lambda>g. g\<lparr>icon := dict_get guild ''icon''\<rparr>),
        assign (\<lambda>g. g\<lparr>unavailable := dict_get_default guild ''unavailable'' (JBool False)\<rparr>),
        set_guild_id d guild,
        assign (\<lambda>g. g\<lparr>u_roles := []\<rparr>),
        for_each (dict_get_default guild ''roles'' (JList [])) (store_role d),
        assign (\<lambda>g. g\<lparr>mfa_level := dict_get guild ''mfa_level''\<rparr>),
        set_emojis d guild,
        assign (\<lambda>g. g\<lparr>features := dict_get_default guild ''features'' (JList [])\<rparr>),
        assign (\<lambda>g. g\<lparr>splash := dict_get guild ''splash''\<rparr>),
        set_system_channel_id d guild,
        for_each (dict_get_default guild ''members'' (JList [])) (store_member d),
        sync d guild,
        set_large member_count,
        set_owner_id d guild,
        set_afk_channel d guild,
        for_each (dict_get_default guild ''voice_states'' (JList [])) (load_voice_state d)])"

definition from_data :: "deps \<Rightarrow> payload \<Rightarrow> step" where
  \<comment> \<open>\<open>_from_data\<close>\<close>
  "from_data d guild = run_steps (from_data_steps d guild)"

definition large :: "Guild \<Rightarrow> error + json" where
  \<comment> \<open>the property \<open>Guild.large\<close>\<close>
  "large g =
     (if u_large g = JNone
      then (case u_member_count g of
              Some mc \<Rightarrow> (case json_ge mc 250 of Inl e \<Rightarrow> Inl e | Inr b \<Rightarrow> Inr (JBool b))
            | None \<Rightarrow> Inr (JBool (int (length (u_members g)) \<ge> 250)))
      else Inr (u_large g))"

text \<open>
  \<open>Guild(data=, state=)\<close>: \<open>__init__\<close> sets the three dictionaries and runs
  \<open>_from_data\<close>; no other slot is read before it is written, and the object exists only
  if \<open>_from_data\<close> returns.
\<close>

definition unset_guild :: Guild where
  "unset_guild =
     \<lparr>afk_timeout = JNone, afk_channel = None, u_members = [], u_channels = [],
      icon = JNone, name = JNone, guild_id = 0, unavailable = JNone, region = JNone,
      u_roles = [], u_member_count = None, u_large = JNone, owner_id = JNone,
      mfa_level = JNone, emojis = [], features = JNone, verification_level = JNone,
      explicit_content_filter = JNone, splash = JNone, u_voice_states = [],
      u_system_channel_id = JNone\<rparr>"

definition Guild_init :: "deps \<Rightarrow> payload \<Rightarrow> error + Guild" where
  "Guild_init d data =
     (case from_data d data unset_guild of (Inl e, g) \<Rightarrow> Inl e | (Inr u, g) \<Rightarrow> Inr g)"

text \<open>A statement keeps an attribute (or any other reading of the guild) when it never
  changes it, whether it returns or raises.\<close>

definition keeps :: "(Guild \<Rightarrow> 'a) \<Rightarrow> step \<Rightarrow> bool" where
  "keeps f s \<longleftrightarrow> (\<forall>g. f (snd (s g)) = f g)"

text \<open>The guild after the first eight statements of \<open>_from_data\<close>, none of which
  can raise.\<close>

definition from_data_head :: "deps \<Rightarrow> payload \<Rightarrow> Guild \<Rightarrow> Guild" where
  "from_data_head d guild g =
     (if truthy (dict_get guild ''member_count'')
      then g\<lparr>u_member_count := Some (dict_get guild ''member_count'')\<rparr> else g)
     \<lparr>name := dict_get guild ''name'',
      region := try_enum d VoiceRegion (dict_get guild ''region''),
      verification_level := try_enum d VerificationLevel (dict_get guild ''verification_level''),
      explicit_content_filter :=
        try_enum d ContentFilter (dict_get_default guild ''explicit_content_filter'' (JInt 0)),
      afk_timeout := dict_get guild ''afk_timeout'',
      icon := dict_get guild ''icon'',
      unavailable := dict_get_default guild ''unavailable'' (JBool False)\<rparr>"

section \<open>The sorted list of snowflakes\<close>

text \<open>
  \<open>SnowflakeList\<close> of \<^verbatim>\<open>utils.py\<close> is an \<open>array.array\<close> of type code \<open>'Q'\<close>: its
  elements are integers from \<open>0\<close> to \<open>2\<^sup>6\<^sup>4 - 1\<close>, and storing any other integer raises
  OverflowError. \<open>bisect_left\<close> is the binary search of Python's \<open>bisect\<close> module.
\<close>

definition is_u64 :: "int \<Rightarrow> bool" where
  "is_u64 x \<longleftrightarrow> 0 \<le> x \<and> x < 2 ^ 64"

function bisect_loop :: "int list \<Rightarrow> int \<Rightarrow> nat \<Rightarrow> nat \<Rightarrow> nat" where
  "bisect_loop a x lo hi =
     (if lo < hi
      then (let mid = (lo + hi) div 2
            in if a ! mid < x then bisect_loop a x (mid + 1) hi else bisect_loop a x lo mid)
      else lo)"
  by pat_completeness auto
termination
  by (relation "measure (\<lambda>(a, x, lo, hi). hi - lo)") auto

declare bisect_loop.simps [simp del]

definition bisect_left :: "int list \<Rightarrow> int \<Rightarrow> nat" where
  "bisect_left a x = bisect_loop a x 0 (length a)"

definition SnowflakeList_new :: "int list \<Rightarrow> bool \<Rightarrow> error + int list" where
  \<comment> \<open>\<open>array.array.__new__(cls, 'Q', data if is_sorted else sorted(data))\<close>\<close>
  "SnowflakeList_new data is_sorted =
     (let xs = (if is_sorted then data else sort data)
      in if list_all is_u64 xs then Inr xs else Inl OverflowError)"

definition SnowflakeList_add :: "int list \<Rightarrow> int \<Rightarrow> error + int list" where
  \<comment> \<open>\<open>add\<close>: \<open>i = bisect_left(self, element); self.insert(i, element)\<close>\<close>
  "SnowflakeList_add a element =
     (let i = bisect_left a element
      in if is_u64 element then Inr (take i a @ element # drop i a) else Inl OverflowError)"

definition SnowflakeList_get :: "int list \<Rightarrow> int \<Rightarrow> int option" where
  "SnowflakeList_get a element =
     (let i = bisect_left a element
      in if i \<noteq> length a \<and> a ! i = element then Some (a ! i) else None)"

definition SnowflakeList_has :: "int list \<Rightarrow> int \<Rightarrow> bool" where
  "SnowflakeList_has a element =
     (let i = bisect_left a element in i \<noteq> length a \<and> a ! i = element)"

fun SnowflakeList_add_all :: "int list \<Rightarrow> int list \<Rightarrow> error + int list" where
  "SnowflakeList_add_all a [] = Inr a"
| "SnowflakeList_add_all a (x # xs) =
     (case SnowflakeList_add a x of Inl e \<Rightarrow> Inl e | Inr a' \<Rightarrow> SnowflakeList_add_all a' xs)"

section \<open>Example data\<close>

text \<open>
  The guild of the spec's scenario: the roles \<open>@everyone\<close> at position 0, \<open>Admin\<close> at
  position 1 and \<open>Mod\<close> at position 2, with one cached member.
\<close>

definition everyone_role :: Role where
  "everyone_role = \<lparr>role_id = 10, position = 0, is_default = True, role_data = JStr ''@everyone''\<rparr>"

definition admin_role :: Role where
  "admin_role = \<lparr>role_id = 11, position = 1, is_default = False, role_data = JStr ''Admin''\<rparr>"

definition mod_role :: Role where
  "mod_role = \<lparr>role_id = 12, position = 2, is_default = False, role_data = JStr ''Mod''\<rparr>"

definition helper_role :: Role where
  "helper_role = \<lparr>role_id = 13, position = 1, is_default = False, role_data = JStr ''Helper''\<rparr>"

definition alice :: Member where
  "alice = \<lparr>member_id = 1, status = JStr ''online'', activity = JNone, member_data = JStr ''alice''\<rparr>"

definition bob :: Member where
  "bob = \<lparr>member_id = 2, status = JStr ''offline'', activity = JNone, member_data = JStr ''bob''\<rparr>"

definition guild3 :: Guild where
  "guild3 = unset_guild
     \<lparr>name := JStr ''Guild'', guild_id := 10, icon := JStr ''icon-hash'',
      afk_timeout := JInt 300, u_member_count := Some (JInt 300),
      u_members := [(1, alice)],
      u_roles := [(10, everyone_role), (11, admin_role), (12, mod_role)]\<rparr>"





text \<open>
  The scenario guild with one voice channel, in which \<open>alice\<close> sits, and two
  voice-state payloads: one for \<open>alice\<close>, one for a user that has no voice state.
\<close>

definition general_channel :: Channel where
  "general_channel = \<lparr>channel_id = 20, kind = VoiceChannel, channel_data = JStr ''General''\<rparr>"

definition alice_voice :: VoiceState where
  "alice_voice = \<lparr>channel = Some general_channel, flags = JBool False\<rparr>"

definition guild_voice :: Guild where
  "guild_voice = guild3\<lparr>u_channels := [(20, general_channel)], u_voice_states := [(1, alice_voice)]\<rparr>"


definition carol_event :: payload where
  "carol_event = [(''user_id'', JInt 7), (''mute'', JBool True)]"


definition zero_count_payload :: payload where
  "zero_count_payload = [(''id'', JInt 10), (''name'', JStr ''Guild''), (''member_count'', JInt 0)]"



section \<open>Dictionaries\<close>

lemma update_fresh: "k \<notin> fst ` set al \<Longrightarrow> AList.update k v al = al @ [(k, v)]"
  by (induction al) auto

lemma delete_filter: "AList.delete k al = filter (\<lambda>p. fst p \<noteq> k) al"
  by (induction al) auto

lemma map_of_map_values:
  "map_of (map (\<lambda>(k, r). (k, f r)) xs) k = map_option f (map_of xs k)"
  by (induction xs) auto

section \<open>Role positions\<close>

lemma shift_up_positions:
  assumes "distinct ps" "set ps = {0..<int n}" "0 < n"
  defines "f \<equiv> \<lambda>p::int. if p = 0 then 0 else p + 1"
  shows "distinct (map f ps @ [1]) \<and> set (map f ps @ [1]) = {0..<int (Suc n)}"
proof -
  have inj: "inj_on f (set ps)" unfolding assms(2) f_def inj_on_def by (auto split: if_splits)
  have d: "distinct (map f ps)" using assms(1) inj by (simp add: distinct_map)
  have n1: "1 \<notin> set (map f ps)" using assms(2) unfolding f_def by (auto split: if_splits)
  have "f ` {0..<int n} \<union> {1} = {0..<int (Suc n)}"
  proof (intro set_eqI iffI)
    fix x assume "x \<in> f ` {0..<int n} \<union> {1}"
    then show "x \<in> {0..<int (Suc n)}" using assms(3) unfolding f_def by (auto split: if_splits)
  next
    fix x assume x: "x \<in> {0..<int (Suc n)}"
    consider "x = 0" | "x = 1" | "2 \<le> x" using x by force
    then show "x \<in> f ` {0..<int n} \<union> {1}"
    proof cases
      case 1 then have "x = f 0" by (simp add: f_def)
      then show ?thesis using assms(3) by auto
    next
      case 2 then show ?thesis by simp
    next
      case 3 then have "x = f (x - 1)" by (simp add: f_def)
      moreover have "x - 1 \<in> {0..<int n}" using 3 x by auto
      ultimately show ?thesis by blast
    qed
  qed
  then show ?thesis using d n1 assms(2) by auto
qed

lemma shift_down_positions:
  assumes "distinct ps" "set ps = {0..<int (length ps)}" "p0 \<in> set ps"
  defines "g \<equiv> \<lambda>p::int. if p > p0 then p - 1 else p"
  defines "qs \<equiv> filter (\<lambda>p. p \<noteq> p0) ps"
  shows "distinct (map g qs) \<and> set (map g qs) = {0..<int (length qs)}"
proof -
  have len: "Suc (length qs) = length ps"
  proof -
    have "length (filter (\<lambda>p. p = p0) ps) = 1"
      using assms(1,3) by (induction ps) (auto simp: filter_empty_conv)
    moreover have "length ps = length (filter (\<lambda>p. p = p0) ps) + length (filter (\<lambda>p. p \<noteq> p0) ps)"
      using sum_length_filter_compl[of "\<lambda>p. p = p0" ps] by simp
    ultimately show ?thesis by (simp add: qs_def)
  qed
  have "set qs = set ps - {p0}" by (auto simp: qs_def)
  then have sq: "set qs = {0..<int (length ps)} - {p0}" by (simp only: assms(2))
  have inj: "inj_on g (set qs)" unfolding sq g_def inj_on_def by (auto split: if_splits)
  have d: "distinct (map g qs)" using assms(1) inj by (simp add: distinct_map qs_def)
  have "g ` ({0..<int (length ps)} - {p0}) = {0..<int (length qs)}"
  proof (intro set_eqI iffI)
    fix x assume "x \<in> g ` ({0..<int (length ps)} - {p0})"
    then show "x \<in> {0..<int (length qs)}" using len assms(2,3) unfolding g_def
      by (auto split: if_splits)
  next
    fix x assume x: "x \<in> {0..<int (length qs)}"
    show "x \<in> g ` ({0..<int (length ps)} - {p0})"
    proof (cases "x < p0")
      case True
      then have "x = g x" by (simp add: g_def)
      moreover have "x \<in> {0..<int (length ps)} - {p0}" using x True len by auto
      ultimately show ?thesis by blast
    next
      case False
      then have "x = g (x + 1)" by (simp add: g_def)
      moreover have "x + 1 \<in> {0..<int (length ps)} - {p0}" using x False len by auto
      ultimately show ?thesis by blast
    qed
  qed
  then show ?thesis using d sq by simp
qed

lemma roles_inv_default_iff:
  assumes "roles_inv g" "(k, r) \<in> set (u_roles g)"
  shows "is_default r \<longleftrightarrow> position r = 0"
proof
  assume "is_default r"
  then show "position r = 0" using assms by (auto simp: roles_inv_def list_all_iff)
next
  assume p: "position r = 0"
  obtain k0 r0 where kr0: "(k0, r0) \<in> set (u_roles g)" "is_default r0"
    using assms(1) by (auto simp: roles_inv_def list_ex_iff)
  then have "position r0 = 0" using assms(1) by (auto simp: roles_inv_def list_all_iff)
  moreover have "inj_on (\<lambda>(k, r). position r) (set (u_roles g))"
    using assms(1) by (simp add: roles_inv_def role_positions_def distinct_map)
  ultimately have "(k, r) = (k0, r0)" using p kr0(1) assms(2)
    by (intro inj_onD[of "\<lambda>(k, r). position r" "set (u_roles g)"]) auto
  then show "is_default r" using kr0(2) by simp
qed

lemma add_role_inv:
  assumes inv: "roles_inv g"
    and fresh: "role_id role \<notin> set (map fst (u_roles g))"
    and pos: "position role = 1" and nd: "\<not> is_default role"
  shows "roles_inv (add_role g role)"
proof -
  let ?f = "\<lambda>p::int. if p = 0 then 0 else p + 1"
  let ?bumped = "map (\<lambda>(k, r). (k, bump_role r)) (u_roles g)"
  have keys: "map fst ?bumped = map fst (u_roles g)" by (induction "u_roles g") auto
  have fresh': "role_id role \<notin> fst ` set ?bumped"
    using fresh keys by (metis list.set_map)
  have new: "u_roles (add_role g role) = ?bumped @ [(role_id role, role)]"
    by (simp add: add_role_def update_fresh[OF fresh'])
  have bp: "map (\<lambda>(k, r). position r) ?bumped = map ?f (role_positions g)"
    using roles_inv_default_iff[OF inv]
    by (auto simp: role_positions_def bump_role_def)
  have posn: "role_positions (add_role g role) = map ?f (role_positions g) @ [1]"
    using new bp pos by (simp add: role_positions_def)
  have ne: "0 < length (u_roles g)" using inv by (auto simp: roles_inv_def list_ex_iff)
  have lenp: "length (role_positions g) = length (u_roles g)" by (simp add: role_positions_def)
  from shift_up_positions[of "role_positions g" "length (u_roles g)"] inv ne
  have c: "distinct (map ?f (role_positions g) @ [1])"
          "set (map ?f (role_positions g) @ [1]) = {0..<int (Suc (length (u_roles g)))}"
    by (auto simp: roles_inv_def)
  have "map fst (u_roles (add_role g role)) = map fst (u_roles g) @ [role_id role]"
    by (simp only: new map_append keys list.map fst_conv)
  then have dk: "distinct (map fst (u_roles (add_role g role)))"
    using inv fresh by (simp add: roles_inv_def)
  obtain k0 r0 where kr0: "(k0, r0) \<in> set (u_roles g)" "is_default r0"
    using inv by (auto simp: roles_inv_def list_ex_iff)
  have "(k0, bump_role r0) \<in> set (u_roles (add_role g role))"
    using kr0(1) unfolding new by force
  moreover have "is_default (bump_role r0)" using kr0(2) by (simp add: bump_role_def)
  ultimately have ex: "list_ex (\<lambda>(k, r). is_default r) (u_roles (add_role g role))"
    unfolding list_ex_iff by (intro bexI[of _ "(k0, bump_role r0)"]) auto
  have al: "list_all (\<lambda>(k, r). is_default r \<longrightarrow> position r = 0) (u_roles (add_role g role))"
    using inv nd by (auto simp: new roles_inv_def list_all_iff bump_role_def)
  have len: "length (u_roles (add_role g role)) = Suc (length (u_roles g))" by (simp add: new)
  show ?thesis
    unfolding roles_inv_def posn len using dk c ex al by blast
qed


lemma remove_role_inv:
  assumes inv: "roles_inv g"
    and present: "map_of (u_roles g) rid = Some role" and nd: "\<not> is_default role"
  shows "roles_inv (snd (remove_role g rid))"
proof -
  let ?g' = "snd (remove_role g rid)"
  let ?rest = "filter (\<lambda>p. fst p \<noteq> rid) (u_roles g)"
  let ?low = "\<lambda>p::int. if p > position role then p - 1 else p"
  have dk: "distinct (map fst (u_roles g))" using inv by (simp add: roles_inv_def)
  have mem: "(rid, role) \<in> set (u_roles g)" using present by (rule map_of_SomeD)
  have new: "u_roles ?g' = map (\<lambda>(k, r). (k, lower_role role r)) ?rest"
    using present by (simp add: remove_role_def dict_pop_def delete_filter)
  have inj: "inj_on (\<lambda>(k, r). position r) (set (u_roles g))"
    using inv by (simp add: roles_inv_def role_positions_def distinct_map)
  have rest_pos: "map (\<lambda>(k, r). position r) ?rest
                  = filter (\<lambda>p. p \<noteq> position role) (role_positions g)"
  proof -
    have "\<forall>kr \<in> set (u_roles g). (fst kr \<noteq> rid) = ((\<lambda>(k, r). position r) kr \<noteq> position role)"
    proof
      fix kr assume kr: "kr \<in> set (u_roles g)"
      obtain k r where [simp]: "kr = (k, r)" by (cases kr)
      show "(fst kr \<noteq> rid) = ((\<lambda>(k, r). position r) kr \<noteq> position role)"
      proof (cases "k = rid")
        case True
        then have "r = role" using dk kr mem by (auto dest: eq_key_imp_eq_value)
        then show ?thesis using True by simp
      next
        case False
        have "position r \<noteq> position role"
        proof
          assume "position r = position role"
          then have "(k, r) = (rid, role)"
            using kr mem by (intro inj_onD[OF inj]) auto
          then show False using False by simp
        qed
        then show ?thesis using False by simp
      qed
    qed
    then show ?thesis
      unfolding role_positions_def filter_map o_def by (metis (mono_tags, lifting) filter_cong)
  qed
  have posn: "role_positions ?g' = map ?low (filter (\<lambda>p. p \<noteq> position role) (role_positions g))"
  proof -
    have "role_positions ?g' = map ?low (map (\<lambda>(k, r). position r) ?rest)"
      unfolding role_positions_def new by (auto simp: lower_role_def)
    then show ?thesis by (simp only: rest_pos)
  qed
  have lenp: "length (role_positions g) = length (u_roles g)" by (simp add: role_positions_def)
  have p0: "position role \<in> set (role_positions g)"
    using mem by (force simp: role_positions_def)
  have len: "length (u_roles ?g') = length (filter (\<lambda>p. p \<noteq> position role) (role_positions g))"
    using arg_cong[OF posn, of length] by (simp add: role_positions_def)
  from shift_down_positions[of "role_positions g" "position role"] inv p0
  have c: "distinct (map ?low (filter (\<lambda>p. p \<noteq> position role) (role_positions g)))"
      "set (map ?low (filter (\<lambda>p. p \<noteq> position role) (role_positions g)))
         = {0..<int (length (filter (\<lambda>p. p \<noteq> position role) (role_positions g)))}"
    by (auto simp: roles_inv_def lenp)
  have keys: "map fst (u_roles ?g') = filter (\<lambda>k. k \<noteq> rid) (map fst (u_roles g))"
    unfolding new by (induction "u_roles g") (auto simp: filter_map o_def)
  have dk': "distinct (map fst (u_roles ?g'))" unfolding keys using dk by simp
  obtain k0 r0 where kr0: "(k0, r0) \<in> set (u_roles g)" "is_default r0"
    using inv by (auto simp: roles_inv_def list_ex_iff)
  have r0pos: "position r0 = 0" using inv kr0 by (auto simp: roles_inv_def list_all_iff)
  have "k0 \<noteq> rid" using kr0 mem dk nd by (auto dest: eq_key_imp_eq_value)
  then have "(k0, lower_role role r0) \<in> set (u_roles ?g')" using kr0(1) unfolding new by force
  moreover have "is_default (lower_role role r0)" using kr0(2) by (simp add: lower_role_def)
  ultimately have ex: "list_ex (\<lambda>(k, r). is_default r) (u_roles ?g')"
    unfolding list_ex_iff by (intro bexI[of _ "(k0, lower_role role r0)"]) auto
  have pos_nonneg: "\<And>k r. (k, r) \<in> set (u_roles g) \<Longrightarrow> 0 \<le> position r"
  proof -
    fix k r assume "(k, r) \<in> set (u_roles g)"
    then have "position r \<in> set (role_positions g)" by (force simp: role_positions_def)
    then show "0 \<le> position r" using inv by (simp add: roles_inv_def)
  qed
  have al: "list_all (\<lambda>(k, r). is_default r \<longrightarrow> position r = 0) (u_roles ?g')"
    using inv pos_nonneg[OF mem] unfolding new
    by (auto simp: roles_inv_def list_all_iff lower_role_def)
  show ?thesis
    unfolding roles_inv_def posn len using dk' c ex al by blast
qed

lemma role_event_step_inv:
  "roles_inv g \<Longrightarrow> role_event_ok g e \<Longrightarrow> roles_inv (apply_role_event g e)"
proof (cases e)
  case (RoleCreate role)
  assume "roles_inv g" "role_event_ok g e"
  then show ?thesis using RoleCreate by (simp add: add_role_inv)
next
  case (RoleDelete rid)
  assume "roles_inv g" "role_event_ok g e"
  then show ?thesis using RoleDelete
    by (auto simp: remove_role_inv split: option.splits)
qed

text \<open>
  C1, as amended. Let the roles of a guild have pairwise different positions that are
  exactly \<open>0, \<dots>, N - 1\<close>, with the default role at position 0. Then every run of
  role-create events (\<open>_add_role\<close> of a new role that carries position 1) and role-delete
  events (\<open>_remove_role\<close> of a stored role other than the default role) leaves positions that
  are again pairwise different and exactly \<open>0, \<dots>, N' - 1\<close>, with the default role at
  position 0.
\<close>

theorem role_events_preserve_positions:
  "roles_inv g \<Longrightarrow> role_events_ok g es \<Longrightarrow> roles_inv (apply_role_events g es)"
proof (induction es arbitrary: g)
  case Nil
  then show ?case by simp
next
  case (Cons e es)
  from Cons.prems have "roles_inv (apply_role_event g e)"
    by (simp add: role_event_step_inv)
  moreover from Cons.prems have "role_events_ok (apply_role_event g e) es" by simp
  ultimately show ?case using Cons.IH by simp
qed

theorem role_events_preserve_positions_witness:
  "roles_inv guild3 \<and>
   role_events_ok guild3 [RoleCreate helper_role, RoleDelete 11, RoleDelete 13] \<and>
   roles_inv (apply_role_events guild3 [RoleCreate helper_role, RoleDelete 11, RoleDelete 13])"
proof -
  have a: "roles_inv guild3" by code_simp
  have b: "role_events_ok guild3 [RoleCreate helper_role, RoleDelete 11, RoleDelete 13]"
    by code_simp
  from role_events_preserve_positions [OF a b] a b show ?thesis by simp
qed

text \<open>
  C1 as stated also allows the deletion of the default role, which is a stored role.
  In the scenario guild, deleting \<open>@everyone\<close> and then creating a role leaves the
  positions 1, 2, 1: no role at position 0 and two roles at position 1.
\<close>

theorem delete_default_role_breaks_positions:
  "roles_inv guild3 \<and>
   role_events_claimed guild3 [RoleDelete 10, RoleCreate helper_role] \<and>
   \<not> roles_inv (apply_role_events guild3 [RoleDelete 10, RoleCreate helper_role]) \<and>
   role_positions (apply_role_events guild3 [RoleDelete 10, RoleCreate helper_role]) = [1, 2, 1]"
  by code_simp

text \<open>
  C2. For a role stored under \<open>rid\<close>, \<open>_remove_role\<close> returns that role, removes exactly
  the key \<open>rid\<close>, and every other stored role keeps all its attributes except that its
  position is one less if it was above the position of the removed role; nothing else
  of the guild changes. In the scenario guild, deleting \<open>Admin\<close> leaves \<open>@everyone\<close> at
  position 0 and \<open>Mod\<close> at position 1.
\<close>

theorem remove_role_present:
  assumes "distinct (map fst (u_roles g))" and "map_of (u_roles g) rid = Some role"
  shows "fst (remove_role g rid) = Inr role \<and>
         map fst (u_roles (snd (remove_role g rid))) = removeAll rid (map fst (u_roles g)) \<and>
         map_of (u_roles (snd (remove_role g rid))) rid = None \<and>
         (\<forall>k r. k \<noteq> rid \<and> map_of (u_roles g) k = Some r \<longrightarrow>
            map_of (u_roles (snd (remove_role g rid))) k
              = Some (r\<lparr>position := (if position r > position role
                                      then position r - 1 else position r)\<rparr>)) \<and>
         (snd (remove_role g rid))\<lparr>u_roles := u_roles g\<rparr> = g \<and>
         map (\<lambda>(k, r). (role_data r, position r)) (u_roles (snd (remove_role guild3 11)))
           = [(JStr ''@everyone'', 0), (JStr ''Mod'', 1)]"
proof -
  let ?rest = "AList.delete rid (u_roles g)"
  have new: "remove_role g rid
             = (Inr role, g\<lparr>u_roles := map (\<lambda>(k, r). (k, lower_role role r)) ?rest\<rparr>)"
    using assms(2) by (simp add: remove_role_def dict_pop_def)
  have keys: "map fst (map (\<lambda>(k, r). (k, lower_role role r)) ?rest)
              = removeAll rid (map fst (u_roles g))"
    by (induction "u_roles g") (auto simp: delete_keys[symmetric] case_prod_beta o_def)
  have look: "map_of (map (\<lambda>(k, r). (k, lower_role role r)) ?rest) k
              = map_option (lower_role role) (map_of ?rest k)" for k
    by (rule map_of_map_values)
  have gone: "map_of ?rest rid = None" by (simp add: delete_conv')
  have kept: "k \<noteq> rid \<Longrightarrow> map_of ?rest k = map_of (u_roles g) k" for k by simp
  have ur: "u_roles (snd (remove_role g rid)) = map (\<lambda>(k, r). (k, lower_role role r)) ?rest"
    by (simp add: new)
  have c1: "fst (remove_role g rid) = Inr role" by (simp add: new)
  have c2: "map fst (u_roles (snd (remove_role g rid))) = removeAll rid (map fst (u_roles g))"
    by (simp only: ur keys)
  have c3: "map_of (u_roles (snd (remove_role g rid))) rid = None"
    by (simp only: ur look gone option.map)
  have c4: "\<forall>k r. k \<noteq> rid \<and> map_of (u_roles g) k = Some r \<longrightarrow>
            map_of (u_roles (snd (remove_role g rid))) k
              = Some (r\<lparr>position := (if position r > position role
                                      then position r - 1 else position r)\<rparr>)"
  proof (intro allI impI)
    fix k r assume kr: "k \<noteq> rid \<and> map_of (u_roles g) k = Some r"
    then have "map_of ?rest k = Some r" using kept by simp
    then have "map_of (u_roles (snd (remove_role g rid))) k = Some (lower_role role r)"
      by (simp only: ur look option.map)
    then show "map_of (u_roles (snd (remove_role g rid))) k
              = Some (r\<lparr>position := (if position r > position role
                                      then position r - 1 else position r)\<rparr>)"
      by (simp add: lower_role_def)
  qed
  have c5: "(snd (remove_role g rid))\<lparr>u_roles := u_roles g\<rparr> = g" by (simp add: new)
  have scen: "map (\<lambda>(k, r). (role_data r, position r)) (u_roles (snd (remove_role guild3 11)))
           = [(JStr ''@everyone'', 0), (JStr ''Mod'', 1)]"
    by code_simp
  show ?thesis using c1 c2 c3 c4 c5 scen by blast
qed

theorem remove_role_present_witness:
  "distinct (map fst (u_roles guild3)) \<and> map_of (u_roles guild3) 11 = Some admin_role \<and>
   fst (remove_role guild3 11) = Inr admin_role \<and>
   map fst (u_roles (snd (remove_role guild3 11))) = [10, 12] \<and>
   map_of (u_roles (snd (remove_role guild3 11))) 12 = Some (mod_role\<lparr>position := 1\<rparr>) \<and>
   map_of (u_roles (snd (remove_role guild3 11))) 10 = Some everyone_role"
proof -
  have a: "distinct (map fst (u_roles guild3))" by code_simp
  have b: "map_of (u_roles guild3) 11 = Some admin_role" by code_simp
  have c: "map_of (u_roles guild3) 12 = Some mod_role" by code_simp
  have d: "map_of (u_roles guild3) 10 = Some everyone_role" by code_simp
  have e: "removeAll 11 (map fst (u_roles guild3)) = [10, 12]" by code_simp
  have p: "position admin_role = 1" "position mod_role = 2" "position everyone_role = 0"
    by (simp_all add: admin_role_def mod_role_def everyone_role_def)
  have q: "everyone_role\<lparr>position := 0\<rparr> = everyone_role" by (simp add: everyone_role_def)
  from remove_role_present [OF a b] a b c d e p q show ?thesis by simp
qed

text \<open>
  C3 as stated says that \<open>_remove_role\<close> of an unknown id raises nothing. In the scenario
  guild, which has no role 99, it raises KeyError.
\<close>

theorem remove_role_unknown_raises:
  "map_of (u_roles guild3) 99 = None \<and> fst (remove_role guild3 99) = Inl KeyError"
  by code_simp

text \<open>
  C3, as amended. For a role id that is not stored, \<open>_remove_role\<close> raises KeyError and
  leaves the guild, with its role dictionary and every position, as it was.
\<close>

theorem remove_role_unknown:
  "map_of (u_roles g) rid = None \<Longrightarrow> remove_role g rid = (Inl KeyError, g)"
  by (simp add: remove_role_def dict_pop_def)

theorem remove_role_unknown_witness:
  "map_of (u_roles guild3) 99 = None \<and> remove_role guild3 99 = (Inl KeyError, guild3)"
proof -
  have a: "map_of (u_roles guild3) 99 = None" by code_simp
  from remove_role_unknown [OF a] a show ?thesis by simp
qed

section \<open>Members\<close>

text \<open>
  C7. For a member whose id is not a key of the member dictionary, \<open>_remove_member\<close>
  returns without raising and leaves the guild unchanged, in particular the member
  dictionary and the cached member count.
\<close>

theorem remove_member_unknown:
  "map_of (u_members g) (member_id m) = None \<Longrightarrow>
     remove_member g m = g \<and>
     u_members (remove_member g m) = u_members g \<and>
     u_member_count (remove_member g m) = u_member_count g"
proof -
  assume "map_of (u_members g) (member_id m) = None"
  then have "member_id m \<notin> fst ` set (u_members g)" by (simp add: map_of_eq_None_iff)
  then have "AList.delete (member_id m) (u_members g) = u_members g" by simp
  then show ?thesis by (simp add: remove_member_def)
qed

theorem remove_member_unknown_witness:
  "map_of (u_members guild3) (member_id bob) = None \<and>
   remove_member guild3 bob = guild3 \<and>
   u_members (remove_member guild3 bob) = [(1, alice)] \<and>
   u_member_count (remove_member guild3 bob) = Some (JInt 300)"
proof -
  have a: "map_of (u_members guild3) (member_id bob) = None" by code_simp
  have b: "u_members guild3 = [(1, alice)]" "u_member_count guild3 = Some (JInt 300)"
    by (simp_all add: guild3_def)
  from remove_member_unknown [OF a] a b show ?thesis by simp
qed

section \<open>Voice states\<close>




text \<open>
  With no channel for the given id, a stored voice state leaves the store, and a user
  without a stored voice state gets one.
\<close>

lemma update_voice_state_evicts_stored:
  assumes "dict_item data ''user_id'' = Inr uid" and "py_int d uid = Inr user_id"
    and "get_channel g cid = Inr None" and "voice_state_for g user_id = Some stored"
  shows "voice_state_for (snd (update_voice_state d g data cid)) user_id = None"
  using assms
  by (simp add: update_voice_state_def voice_state_for_def Let_def delete_conv')

lemma update_voice_state_caches_unknown:
  assumes "dict_item data ''user_id'' = Inr uid" and "py_int d uid = Inr user_id"
    and "get_channel g cid = Inr None" and "voice_state_for g user_id = None"
  shows "voice_state_for (snd (update_voice_state d g data cid)) user_id
           = Some (new_VoiceState d data None)"
  using assms
  by (simp add: update_voice_state_def voice_state_for_def Let_def update_conv')

text \<open>
  C6 at a user without a stored voice state, whatever the rest of the library does:
  the channel id \<open>None\<close> resolves to no channel, and after the call the store holds a
  voice state for the user, with no channel.
\<close>

theorem update_voice_state_unknown_user_cached:
  "get_channel guild_voice JNone = Inr None \<and>
   voice_state_for guild_voice 7 = None \<and>
   voice_state_for (snd (update_voice_state d guild_voice carol_event JNone)) 7
     = Some (new_VoiceState d carol_event None) \<and>
   channel (new_VoiceState d carol_event None) = None"
  by (simp add: update_voice_state_def voice_state_for_def get_channel_def guild_voice_def
        guild3_def unset_guild_def carol_event_def dict_item_def py_int_def Let_def
        new_VoiceState_def)

section \<open>The sorted list of snowflakes\<close>

lemma bisect_loop_spec:
  assumes "sorted a" and "lo \<le> hi" and "hi \<le> length a"
    and "\<forall>i<lo. a ! i < x" and "\<forall>i. hi \<le> i \<and> i < length a \<longrightarrow> x \<le> a ! i"
  shows "lo \<le> bisect_loop a x lo hi \<and> bisect_loop a x lo hi \<le> hi \<and>
         (\<forall>i<bisect_loop a x lo hi. a ! i < x) \<and>
         (\<forall>i. bisect_loop a x lo hi \<le> i \<and> i < length a \<longrightarrow> x \<le> a ! i)"
  using assms
proof (induction a x lo hi rule: bisect_loop.induct)
  case (1 a x lo hi)
  show ?case
  proof (cases "lo < hi")
    case False
    then have "bisect_loop a x lo hi = lo" by (subst bisect_loop.simps) simp
    with False "1.prems" show ?thesis by simp
  next
    case True
    let ?mid = "(lo + hi) div 2"
    have mid: "lo \<le> ?mid" "?mid < hi" using True by auto
    show ?thesis
    proof (cases "a ! ?mid < x")
      case less: True
      have below: "\<forall>i<?mid + 1. a ! i < x"
      proof (intro allI impI)
        fix i assume "i < ?mid + 1"
        then have "i \<le> ?mid" by simp
        then have "a ! i \<le> a ! ?mid"
          using "1.prems"(1,3) mid by (auto intro: sorted_nth_mono)
        then show "a ! i < x" using less by simp
      qed
      have "?mid + 1 \<le> bisect_loop a x (?mid + 1) hi \<and> bisect_loop a x (?mid + 1) hi \<le> hi \<and>
         (\<forall>i<bisect_loop a x (?mid + 1) hi. a ! i < x) \<and>
         (\<forall>i. bisect_loop a x (?mid + 1) hi \<le> i \<and> i < length a \<longrightarrow> x \<le> a ! i)"
        using "1.IH"(1)[OF True refl less "1.prems"(1) _ "1.prems"(3) below "1.prems"(5)] mid
        by simp
      moreover have "bisect_loop a x lo hi = bisect_loop a x (?mid + 1) hi"
        using True less by (subst bisect_loop.simps) (simp add: Let_def)
      ultimately show ?thesis using mid by auto
    next
      case geq: False
      have above: "\<forall>i. ?mid \<le> i \<and> i < length a \<longrightarrow> x \<le> a ! i"
      proof (intro allI impI)
        fix i assume i: "?mid \<le> i \<and> i < length a"
        then have "a ! ?mid \<le> a ! i"
          using "1.prems"(1) by (auto intro: sorted_nth_mono)
        then show "x \<le> a ! i" using geq by simp
      qed
      have "?mid \<le> length a" using mid "1.prems"(3) by simp
      then have "lo \<le> bisect_loop a x lo ?mid \<and> bisect_loop a x lo ?mid \<le> ?mid \<and>
         (\<forall>i<bisect_loop a x lo ?mid. a ! i < x) \<and>
         (\<forall>i. bisect_loop a x lo ?mid \<le> i \<and> i < length a \<longrightarrow> x \<le> a ! i)"
        using "1.IH"(2)[OF True refl geq "1.prems"(1) mid(1) _ "1.prems"(4) above]
        by simp
      moreover have "bisect_loop a x lo hi = bisect_loop a x lo ?mid"
        using True geq by (subst bisect_loop.simps) (simp add: Let_def)
      ultimately show ?thesis using mid by auto
    qed
  qed
qed

lemma bisect_left_spec:
  assumes "sorted a"
  shows "bisect_left a x \<le> length a \<and>
         (\<forall>i<bisect_left a x. a ! i < x) \<and>
         (\<forall>i. bisect_left a x \<le> i \<and> i < length a \<longrightarrow> x \<le> a ! i)"
  using bisect_loop_spec[of a 0 "length a" x] assms by (simp add: bisect_left_def)

lemma sorted_insert_at:
  assumes "sorted a" and "i \<le> length a"
    and "\<forall>j<i. a ! j < x" and "\<forall>j. i \<le> j \<and> j < length a \<longrightarrow> x \<le> a ! j"
  shows "sorted (take i a @ x # drop i a)"
proof -
  have t: "\<forall>y\<in>set (take i a). y \<le> x"
  proof
    fix y assume "y \<in> set (take i a)"
    then obtain j where "j < length (take i a)" "take i a ! j = y" by (auto simp: in_set_conv_nth)
    then show "y \<le> x" using assms(3) by force
  qed
  have d: "\<forall>y\<in>set (drop i a). x \<le> y"
  proof
    fix y assume "y \<in> set (drop i a)"
    then obtain j where j: "j < length (drop i a)" "drop i a ! j = y" by (auto simp: in_set_conv_nth)
    then have "a ! (i + j) = y" using assms(2) by simp
    moreover have "i + j < length a" using j(1) by simp
    ultimately show "x \<le> y" using assms(4) by (metis le_add1)
  qed
  have td: "\<forall>y\<in>set (take i a). \<forall>z\<in>set (drop i a). y \<le> z" using t d by force
  have "sorted (take i a)" "sorted (drop i a)"
    using assms(1) by (simp_all add: sorted_wrt_take sorted_wrt_drop)
  then show ?thesis using t d td by (auto simp: sorted_append)
qed

lemma SnowflakeList_add_sorted:
  assumes "sorted a" and "SnowflakeList_add a x = Inr a'"
  shows "sorted a' \<and> set a' = insert x (set a) \<and> length a' = Suc (length a)"
proof -
  let ?i = "bisect_left a x"
  have a': "a' = take ?i a @ x # drop ?i a"
    using assms(2) by (simp add: SnowflakeList_add_def Let_def split: if_splits)
  have s: "sorted a'" unfolding a' using bisect_left_spec[OF assms(1), of x]
    by (intro sorted_insert_at[OF assms(1)]) auto
  have "set a' = insert x (set (take ?i a) \<union> set (drop ?i a))" unfolding a' by simp
  moreover have "set (take ?i a) \<union> set (drop ?i a) = set a"
    by (metis append_take_drop_id set_append)
  ultimately have e: "set a' = insert x (set a)" by simp
  have "?i \<le> length a" using bisect_left_spec[OF assms(1), of x] by simp
  then have l: "length a' = Suc (length a)" unfolding a' by simp
  show ?thesis using s e l by blast
qed

lemma SnowflakeList_add_all_sorted:
  "sorted a \<Longrightarrow> SnowflakeList_add_all a xs = Inr a' \<Longrightarrow>
     sorted a' \<and> set a' = set a \<union> set xs \<and> length a' = length a + length xs"
proof (induction xs arbitrary: a)
  case Nil
  then show ?case by simp
next
  case (Cons x xs)
  from Cons.prems(2) obtain b where b: "SnowflakeList_add a x = Inr b"
    and rest: "SnowflakeList_add_all b xs = Inr a'"
    by (auto split: sum.splits)
  from SnowflakeList_add_sorted[OF Cons.prems(1) b]
  have sb: "sorted b" "set b = insert x (set a)" "length b = Suc (length a)" by auto
  from Cons.IH[OF sb(1) rest] sb show ?case by auto
qed

lemma SnowflakeList_add_all_succeeds:
  "list_all is_u64 xs \<Longrightarrow> \<exists>a'. SnowflakeList_add_all a xs = Inr a'"
  by (induction xs arbitrary: a) (auto simp: SnowflakeList_add_def Let_def)

lemma SnowflakeList_has_iff:
  assumes "sorted a"
  shows "SnowflakeList_has a x \<longleftrightarrow> x \<in> set a"
proof
  assume "SnowflakeList_has a x"
  then have "bisect_left a x \<noteq> length a" "a ! bisect_left a x = x"
    by (simp_all add: SnowflakeList_has_def Let_def)
  moreover have "bisect_left a x \<le> length a" using bisect_left_spec[OF assms] by simp
  ultimately show "x \<in> set a" by (metis le_neq_implies_less nth_mem)
next
  assume "x \<in> set a"
  then obtain j where j: "j < length a" "a ! j = x" by (auto simp: in_set_conv_nth)
  let ?i = "bisect_left a x"
  from bisect_left_spec[OF assms, of x]
  have sp: "?i \<le> length a" "\<forall>i<?i. a ! i < x" "\<forall>i. ?i \<le> i \<and> i < length a \<longrightarrow> x \<le> a ! i"
    by auto
  have ij: "?i \<le> j" using sp(2) j(2) by (metis less_irrefl not_le)
  then have lt: "?i < length a" using j(1) by simp
  have "a ! ?i \<le> a ! j" using assms ij j(1) by (auto intro: sorted_nth_mono)
  moreover have "x \<le> a ! ?i" using sp(3) lt by simp
  ultimately have "a ! ?i = x" using j(2) by simp
  then show "SnowflakeList_has a x" using lt by (simp add: SnowflakeList_has_def Let_def)
qed

lemma SnowflakeList_get_eq:
  "SnowflakeList_get a x = (if SnowflakeList_has a x then Some x else None)"
  by (auto simp: SnowflakeList_get_def SnowflakeList_has_def Let_def)

text \<open>
  C10, as amended. Build a \<open>SnowflakeList\<close> from 64-bit ids, either with
  \<open>is_sorted\<close> false (the default) from any collection or with \<open>is_sorted\<close> true from a
  sorted one, and add any sequence of 64-bit ids. Then no call raises, the array is
  sorted and holds exactly the given ids, \<open>has(x)\<close> is true exactly for the stored
  \<open>x\<close>, and \<open>get(x)\<close> is \<open>x\<close> for a stored \<open>x\<close> and \<open>None\<close> otherwise. Every array on
  the way is the result of a shorter sequence of \<open>add\<close> calls, so this holds at all times.
\<close>

theorem SnowflakeList_sorted_lookup:
  assumes "is_sorted \<longrightarrow> sorted data"
    and "list_all is_u64 data" and "list_all is_u64 xs"
  shows "\<exists>a0 a. SnowflakeList_new data is_sorted = Inr a0 \<and>
           SnowflakeList_add_all a0 xs = Inr a \<and>
           sorted a \<and> set a = set data \<union> set xs \<and> length a = length data + length xs \<and>
           (\<forall>x. SnowflakeList_has a x \<longleftrightarrow> x \<in> set a) \<and>
           (\<forall>x. SnowflakeList_get a x = (if x \<in> set a then Some x else None))"
proof -
  let ?a0 = "if is_sorted then data else sort data"
  have u: "list_all is_u64 ?a0" using assms(2) by (simp add: list_all_iff)
  then have new: "SnowflakeList_new data is_sorted = Inr ?a0"
    by (simp add: SnowflakeList_new_def Let_def)
  have s0: "sorted ?a0" using assms(1) by simp
  obtain a where a: "SnowflakeList_add_all ?a0 xs = Inr a"
    using SnowflakeList_add_all_succeeds[OF assms(3)] by blast
  from SnowflakeList_add_all_sorted[OF s0 a]
  have r: "sorted a" "set a = set data \<union> set xs" "length a = length data + length xs" by auto
  have h: "\<forall>x. SnowflakeList_has a x \<longleftrightarrow> x \<in> set a"
    using SnowflakeList_has_iff[OF r(1)] by simp
  have g: "\<forall>x. SnowflakeList_get a x = (if x \<in> set a then Some x else None)"
    using h by (simp add: SnowflakeList_get_eq)
  show ?thesis using new a r h g by blast
qed

theorem SnowflakeList_sorted_lookup_witness:
  "list_all is_u64 [30, 10, 20] \<and> list_all is_u64 [25, 10] \<and>
   SnowflakeList_new [30, 10, 20] False = Inr [10, 20, 30] \<and>
   SnowflakeList_add_all [10, 20, 30] [25, 10] = Inr [10, 10, 20, 25, 30] \<and>
   sorted [10, 10, 20, 25, 30 :: int] \<and>
   SnowflakeList_has [10, 10, 20, 25, 30] 25 \<and> \<not> SnowflakeList_has [10, 10, 20, 25, 30] 26"
proof -
  have a: "False \<longrightarrow> sorted [30, 10, 20 :: int]" by simp
  have b: "list_all is_u64 [30, 10, 20]" by code_simp
  have c: "list_all is_u64 [25, 10]" by code_simp
  have n: "SnowflakeList_new [30, 10, 20] False = Inr [10, 20, 30]" by code_simp
  have d: "SnowflakeList_add_all [10, 20, 30] [25, 10] = Inr [10, 10, 20, 25, 30]" by code_simp
  from SnowflakeList_sorted_lookup [OF a b c] obtain a0 a1
    where w: "SnowflakeList_new [30, 10, 20] False = Inr a0"
      "SnowflakeList_add_all a0 [25, 10] = Inr a1" "sorted a1"
      "\<forall>x. SnowflakeList_has a1 x \<longleftrightarrow> x \<in> set a1"
    by blast
  have "a0 = [10, 20, 30]" using w(1) n by simp
  then have a1: "a1 = [10, 10, 20, 25, 30]" using w(2) d by simp
  have "sorted [10, 10, 20, 25, 30 :: int]" using w(3) unfolding a1 .
  moreover have "SnowflakeList_has [10, 10, 20, 25, 30] 25" using w(4) unfolding a1 by simp
  moreover have "\<not> SnowflakeList_has [10, 10, 20, 25, 30] 26" using w(4) unfolding a1 by simp
  ultimately show ?thesis using b c n d by blast
qed

text \<open>
  C10 as stated covers every initial collection. With \<open>is_sorted=True\<close> the
  constructor stores the collection as given: from \<open>[2, 1]\<close> the array is not sorted,
  and \<open>has(1)\<close> is false although 1 is stored.
\<close>

theorem SnowflakeList_unsorted_flagged_sorted:
  "list_all is_u64 [2, 1] \<and>
   SnowflakeList_new [2, 1] True = Inr [2, 1] \<and> \<not> sorted [2, 1 :: int] \<and>
   1 \<in> set [2, 1 :: int] \<and> \<not> SnowflakeList_has [2, 1] 1 \<and> SnowflakeList_get [2, 1] 1 = None"
  by code_simp

section \<open>Rebuilding a guild from a payload\<close>

lemma keeps_run_steps:
  assumes "\<And>s. s \<in> set ss \<Longrightarrow> keeps f s"
  shows "keeps f (run_steps ss)"
proof -
  have "f (snd (run_steps ss g)) = f g" for g
    using assms
  proof (induction ss arbitrary: g)
    case Nil
    then show ?case by simp
  next
    case (Cons s ss)
    have s: "f (snd (s g)) = f g" using Cons.prems[of s] by (simp add: keeps_def)
    show ?case
    proof (cases "s g")
      case (Pair r g')
      then show ?thesis
      proof (cases r)
        case (Inl e)
        then show ?thesis using Pair s by simp
      next
        case (Inr u)
        have "f (snd (run_steps ss g')) = f g'" using Cons.IH Cons.prems by simp
        then show ?thesis using Pair Inr s by simp
      qed
    qed
  qed
  then show ?thesis by (simp add: keeps_def)
qed

lemma keeps_for_each:
  assumes "\<And>x. keeps f (body x)"
  shows "keeps f (for_each v body)"
proof -
  have "keeps f (run_steps (map body xs))" for xs
    using assms by (intro keeps_run_steps) auto
  then show ?thesis
    by (auto simp: keeps_def for_each_def split: sum.splits)
qed

lemma keeps_assign: "(\<And>g. f (u g) = f g) \<Longrightarrow> keeps f (assign u)"
  by (simp add: keeps_def assign_def)

lemma keeps_set_guild_id:
  "(\<And>g n. f (g\<lparr>guild_id := n\<rparr>) = f g) \<Longrightarrow> keeps f (set_guild_id d guild)"
  by (simp add: keeps_def set_guild_id_def split: sum.splits)

lemma keeps_store_role:
  "(\<And>g r. f (g\<lparr>u_roles := r\<rparr>) = f g) \<Longrightarrow> keeps f (store_role d x)"
  by (simp add: keeps_def store_role_def split: sum.splits)

lemma keeps_set_emojis:
  "(\<And>g es. f (g\<lparr>emojis := es\<rparr>) = f g) \<Longrightarrow> keeps f (set_emojis d guild)"
  by (simp add: keeps_def set_emojis_def split: sum.splits)

lemma keeps_set_system_channel_id:
  "(\<And>g v. f (g\<lparr>u_system_channel_id := v\<rparr>) = f g) \<Longrightarrow> keeps f (set_system_channel_id d guild)"
  by (simp add: keeps_def set_system_channel_id_def split: sum.splits)

lemma keeps_store_member:
  "(\<And>g ms. f (g\<lparr>u_members := ms\<rparr>) = f g) \<Longrightarrow> keeps f (store_member d x)"
  by (simp add: keeps_def store_member_def add_member_def split: sum.splits)

lemma keeps_sync_presence:
  "(\<And>g ms. f (g\<lparr>u_members := ms\<rparr>) = f g) \<Longrightarrow> keeps f (sync_presence d x)"
  by (simp add: keeps_def sync_presence_def Let_def split: sum.splits option.splits)

lemma keeps_sync_channel:
  "(\<And>g cs. f (g\<lparr>u_channels := cs\<rparr>) = f g) \<Longrightarrow> keeps f (sync_channel d x)"
  by (simp add: keeps_def sync_channel_def sync_add_channel_def add_channel_def
           split: sum.splits)

lemma keeps_sync:
  assumes "\<And>g v. f (g\<lparr>u_large := v\<rparr>) = f g"
    and "\<And>g ms. f (g\<lparr>u_members := ms\<rparr>) = f g"
    and "\<And>g cs. f (g\<lparr>u_channels := cs\<rparr>) = f g"
  shows "keeps f (sync d data)"
proof -
  have 1: "keeps f (assign (\<lambda>g. case map_of data ''large'' of None \<Rightarrow> g
                                  | Some v \<Rightarrow> g\<lparr>u_large := v\<rparr>))"
    using assms(1) by (intro keeps_assign) (simp split: option.splits)
  have 2: "keeps f (for_each (dict_get_default data ''presences'' (JList [])) (sync_presence d))"
    using assms(2) by (intro keeps_for_each keeps_sync_presence)
  have 3: "keeps f (\<lambda>g. case map_of data ''channels'' of None \<Rightarrow> (Inr (), g)
                         | Some channels \<Rightarrow> for_each channels (sync_channel d) g)"
  proof (cases "map_of data ''channels''")
    case None
    then show ?thesis by (simp add: keeps_def)
  next
    case (Some channels)
    have "keeps f (for_each channels (sync_channel d))"
      using assms(3) by (intro keeps_for_each keeps_sync_channel)
    then show ?thesis using Some by (simp add: keeps_def)
  qed
  show ?thesis unfolding sync_def using 1 2 3 by (intro keeps_run_steps) auto
qed

lemma keeps_set_large:
  "(\<And>g v. f (g\<lparr>u_large := v\<rparr>) = f g) \<Longrightarrow> keeps f (set_large mc)"
  by (simp add: keeps_def set_large_def split: sum.splits option.splits)

lemma keeps_set_owner_id:
  "(\<And>g v. f (g\<lparr>owner_id := v\<rparr>) = f g) \<Longrightarrow> keeps f (set_owner_id d guild)"
  by (simp add: keeps_def set_owner_id_def split: sum.splits)

lemma keeps_set_afk_channel:
  "(\<And>g v. f (g\<lparr>afk_channel := v\<rparr>) = f g) \<Longrightarrow> keeps f (set_afk_channel d guild)"
  by (simp add: keeps_def set_afk_channel_def split: sum.splits)

lemma update_voice_state_frame:
  "(\<And>g vs. f (g\<lparr>u_voice_states := vs\<rparr>) = f g) \<Longrightarrow>
     f (snd (update_voice_state d g data cid)) = f g"
  by (simp add: update_voice_state_def Let_def split: sum.splits option.splits)

lemma keeps_load_voice_state:
  assumes "\<And>g vs. f (g\<lparr>u_voice_states := vs\<rparr>) = f g"
  shows "keeps f (load_voice_state d x)"
proof -
  have "f (snd (load_voice_state d x g)) = f g" for g
    using update_voice_state_frame[of f d g, OF assms]
    by (auto simp: load_voice_state_def split: sum.splits json.splits prod.splits)
       (metis snd_conv)+
  then show ?thesis by (simp add: keeps_def)
qed


lemma run_steps_append:
  "run_steps (xs @ ys) g =
     (case run_steps xs g of (Inl e, g') \<Rightarrow> (Inl e, g') | (Inr u, g') \<Rightarrow> run_steps ys g')"
  by (induction xs arbitrary: g) (auto split: prod.splits sum.splits)

lemma run_steps_success_split:
  assumes "run_steps (pre @ s # post) g = (Inr (), g')"
  shows "\<exists>g1 g2. run_steps pre g = (Inr (), g1) \<and> s g1 = (Inr (), g2) \<and>
           run_steps post g2 = (Inr (), g')"
  using assms by (auto simp: run_steps_append split: prod.splits sum.splits)



lemmas keeps_step_rules =
  keeps_assign keeps_for_each keeps_set_guild_id keeps_store_role keeps_set_emojis
  keeps_set_system_channel_id keeps_store_member keeps_sync keeps_set_large
  keeps_set_owner_id keeps_set_afk_channel keeps_load_voice_state




lemma from_data_success:
  "fst (from_data d guild g) = Inr () \<Longrightarrow>
     run_steps (from_data_steps d guild) g = (Inr (), snd (from_data d guild g))"
  by (metis from_data_def prod.collapse)












text \<open>
  The large flag. When \<open>_from_data\<close> returns, \<open>_large\<close> is \<open>None\<close> for a payload without
  \<open>member_count\<close>, and \<open>member_count >= 250\<close> for a \<open>member_count\<close> that is an integer
  other than 0; the property \<open>large\<close> then compares the cached member count, or the
  number of cached members when there is none, with 250.
\<close>

lemma from_data_at_set_large:
  assumes ok: "fst (from_data d guild g) = Inr ()"
  shows "\<exists>g1 g2. u_member_count g1 = u_member_count (from_data_head d guild g) \<and>
           set_large (dict_get guild ''member_count'') g1 = (Inr (), g2) \<and>
           u_large (snd (from_data d guild g)) = u_large g2"
proof -
  let ?steps = "from_data_steps d guild"
  have split: "?steps = take 18 ?steps @ set_large (dict_get guild ''member_count'') # drop 19 ?steps"
    by (simp add: from_data_steps_def Let_def)
  have "run_steps (take 18 ?steps @ set_large (dict_get guild ''member_count'') # drop 19 ?steps) g
          = (Inr (), snd (from_data d guild g))"
    using from_data_success[OF ok] split by simp
  from run_steps_success_split[OF this] obtain g1 g2
    where pre: "run_steps (take 18 ?steps) g = (Inr (), g1)"
      and mid: "set_large (dict_get guild ''member_count'') g1 = (Inr (), g2)"
      and post: "run_steps (drop 19 ?steps) g2 = (Inr (), snd (from_data d guild g))"
    by blast
  have "run_steps (take 18 ?steps) g
          = run_steps (take 10 (drop 8 ?steps)) (from_data_head d guild g)"
    by (simp add: from_data_steps_def from_data_head_def Let_def assign_def)
  moreover have "keeps u_member_count (run_steps (take 10 (drop 8 ?steps)))"
    by (rule keeps_run_steps)
       (auto simp: from_data_steps_def Let_def intro!: keeps_step_rules)
  ultimately have a: "u_member_count g1 = u_member_count (from_data_head d guild g)"
    using pre by (metis keeps_def snd_conv)
  have "keeps u_large (run_steps (drop 19 ?steps))"
    by (rule keeps_run_steps)
       (auto simp: from_data_steps_def Let_def intro!: keeps_step_rules)
  then have b: "u_large (snd (from_data d guild g)) = u_large g2"
    using post by (metis keeps_def snd_conv)
  show ?thesis using a mid b by blast
qed

lemma from_data_large_undetermined:
  assumes "fst (from_data d guild g) = Inr ()" and "dict_get guild ''member_count'' = JNone"
  shows "u_large (snd (from_data d guild g)) = JNone"
proof -
  from from_data_at_set_large[OF assms(1)] obtain g1 g2
    where "set_large (dict_get guild ''member_count'') g1 = (Inr (), g2)"
      "u_large (snd (from_data d guild g)) = u_large g2" by blast
  then show ?thesis using assms(2) by (auto simp: set_large_def)
qed

lemma from_data_large_determined:
  assumes "fst (from_data d guild g) = Inr ()"
    and "dict_get guild ''member_count'' = JInt n" and "n \<noteq> 0"
  shows "u_large (snd (from_data d guild g)) = JBool (n \<ge> 250)"
proof -
  from from_data_at_set_large[OF assms(1)] obtain g1 g2
    where *: "u_member_count g1 = u_member_count (from_data_head d guild g)"
      "set_large (dict_get guild ''member_count'') g1 = (Inr (), g2)"
      "u_large (snd (from_data d guild g)) = u_large g2" by blast
  have "u_member_count g1 = Some (JInt n)"
    using *(1) assms(2,3) by (simp add: from_data_head_def truthy_def)
  then show ?thesis using *(2,3) assms(2) by (auto simp: set_large_def json_ge_def)
qed

lemma large_resolves:
  "u_large g = JNone \<Longrightarrow> u_member_count g = Some (JInt n) \<Longrightarrow> large g = Inr (JBool (n \<ge> 250))"
  "u_large g = JNone \<Longrightarrow> u_member_count g = None \<Longrightarrow>
     large g = Inr (JBool (int (length (u_members g)) \<ge> 250))"
  "u_large g \<noteq> JNone \<Longrightarrow> large g = Inr (u_large g)"
  by (simp_all add: large_def json_ge_def)

text \<open>
  C8 at \<open>member_count = 0\<close>, which is present but not truthy, whatever the rest of the
  library does: \<open>_member_count\<close> is not set, yet \<open>_large\<close> is computed from it. Constructing a guild from such a payload raises
  AttributeError; rebuilding the scenario guild, whose cached count is 300, from it
  returns normally and leaves the large flag \<open>True\<close>, although \<open>0 >= 250\<close> is false.
\<close>

theorem from_data_zero_member_count:
  "dict_get zero_count_payload ''member_count'' = JInt 0 \<and>
   Guild_init d zero_count_payload = Inl AttributeError \<and>
   u_member_count guild3 = Some (JInt 300) \<and>
   fst (from_data d zero_count_payload guild3) = Inr () \<and>
   u_large (snd (from_data d zero_count_payload guild3)) = JBool True \<and>
   large (snd (from_data d zero_count_payload guild3)) = Inr (JBool True)"
proof -
  note steps = from_data_def from_data_steps_def zero_count_payload_def
    dict_get_def dict_get_default_def Let_def assign_def truthy_def unset_guild_def
    set_guild_id_def dict_item_def py_int_def for_each_def py_iter_def set_emojis_def
    set_system_channel_id_def get_as_snowflake_def sync_def set_large_def json_ge_def
    set_owner_id_def set_afk_channel_def get_channel_def
  have new: "Guild_init d zero_count_payload = Inl AttributeError"
    by (simp add: Guild_init_def steps)
  have again: "fst (from_data d zero_count_payload guild3) = Inr ()"
    "u_large (snd (from_data d zero_count_payload guild3)) = JBool True"
    by (simp_all add: guild3_def steps)
  have "large (snd (from_data d zero_count_payload guild3)) = Inr (JBool True)"
    using again(2) by (simp add: large_def)
  then show ?thesis using new again by (simp add: zero_count_payload_def dict_get_def guild3_def)
qed

end
